theory Spec2Isabelle
  imports Complex_Main "HOL-Library.Sublist"
begin

section \<open>The insert-size mixture estimator of 7\_reassembly.py\<close>

text \<open>
  The script computes with IEEE doubles through numpy. The embedding works over the
  real numbers: every arithmetic operation is the exact one, and the two special
  doubles the script produces on purpose (\<open>float('nan')\<close>, \<open>float('inf')\<close>, and the
  NaN numpy returns for the mean of an empty array) are constructors of \<open>pyfloat\<close>.
  Rounding error is therefore outside the model; every statement below that fails
  does so by many orders of magnitude more than rounding could explain.
\<close>

datatype pyfloat = Finite real | PosInf | NaN

subsection \<open>Chimeric ratios (main, lines 235 and 241)\<close>

text \<open>
  \<^verbatim>\<open>long_range_ratio = (n * pi_C + m) / (n + m) if (n + m) > 0 else float('nan')\<close>
  \<^verbatim>\<open>ratio_3d = m / n if n > 0 else float('inf')\<close>
  The counts are the Python integers returned by \<open>count_intra_inter_pairs\<close>, which
  only ever increments them from zero: natural numbers.
\<close>

definition long_range_ratio :: "nat \<Rightarrow> nat \<Rightarrow> real \<Rightarrow> pyfloat" where
  "long_range_ratio n m pi_C =
     (if n + m > 0 then Finite ((real n * pi_C + real m) / real (n + m)) else NaN)"

definition ratio_3d :: "nat \<Rightarrow> nat \<Rightarrow> pyfloat" where
  "ratio_3d n m = (if n > 0 then Finite (real m / real n) else PosInf)"

subsection \<open>Cutoff derivation (main, lines 248 to 259)\<close>

text \<open>
  \<open>norm.ppf\<close> is scipy's standard normal quantile function; it is a parameter of
  the model. The \<open>try\<close> block catches every exception raised while the thresholds are
  computed, so the parameter returns \<open>None\<close> where the call raises, and the model
  then takes the \<open>except\<close> branch.
\<close>

definition derive_cutoff ::
  "(real \<Rightarrow> real option) \<Rightarrow> real \<Rightarrow> real \<Rightarrow> real \<Rightarrow> real \<Rightarrow> real" where
  "derive_cutoff ppf mu_C mu_N sigma_C sigma_N =
     (case ppf (5 / 100) of
        None \<Rightarrow> 500
      | Some z05 \<Rightarrow>
          (case ppf (95 / 100) of
             None \<Rightarrow> 500
           | Some z95 \<Rightarrow>
               (let th_C = mu_C + z05 * sigma_C;
                    th_N = mu_N + z95 * sigma_N
                in if th_N \<le> 0 then max th_C 100
                   else if th_C \<le> 0 then max th_N 100
                   else max (min th_C th_N) 100)))"

subsection \<open>Alignment text\<close>

text \<open>
  Both scans read the text that \<open>samtools view\<close> prints: one alignment per line,
  fields separated by tabs. \<open>py_isspace\<close> is the ASCII part of Python's
  \<open>str.isspace\<close>, \<open>py_strip\<close> is \<open>str.strip()\<close>, \<open>py_split\<close> is
  \<open>str.split(sep)\<close> for a separator of one character (the empty string splits into
  one empty field), and \<open>py_join\<close> is \<open>sep.join\<close>, used to write lines down.
\<close>

definition tab :: char where "tab = CHR 0x09"
definition newline :: char where "newline = CHR 0x0A"

definition py_isspace :: "char \<Rightarrow> bool" where
  "py_isspace c =
     (let n = (of_char c :: nat)
      in (9 \<le> n \<and> n \<le> 13) \<or> (28 \<le> n \<and> n \<le> 32))"

definition py_strip :: "string \<Rightarrow> string" where
  "py_strip s = rev (dropWhile py_isspace (rev (dropWhile py_isspace s)))"

fun py_split :: "char \<Rightarrow> string \<Rightarrow> string list" where
  "py_split sep [] = [[]]"
| "py_split sep (c # cs) =
     (if c = sep then [] # py_split sep cs
      else (case py_split sep cs of w # ws \<Rightarrow> (c # w) # ws | [] \<Rightarrow> [[c]]))"

fun py_join :: "char \<Rightarrow> string list \<Rightarrow> string" where
  "py_join sep [] = []"
| "py_join sep [x] = x"
| "py_join sep (x # y # ys) = x @ sep # py_join sep (y # ys)"


subsection \<open>Pair counting (count\_intra\_inter\_pairs, lines 145 to 187)\<close>

text \<open>
  The argument is \<open>result.stdout\<close>, the output of
  \<^verbatim>\<open>samtools view -f 1 -F 0x904\<close>: the paired, mapped, primary records. The loop
  state is the set \<open>seen\<close> and the two counters; \<open>pair_step\<close> is the loop body, with
  its three \<open>continue\<close> statements returning the state unchanged.
\<close>

type_synonym pair_state = "string set \<times> nat \<times> nat"

definition pair_step :: "pair_state \<Rightarrow> string \<Rightarrow> pair_state" where
  "pair_step st line =
     (case st of (seen, n, m) \<Rightarrow>
        if py_strip line = [] then st
        else
          (let fields = py_split tab (py_strip line)
           in if length fields < 7 then st
              else
                (let qname = fields ! 0;
                     rname = fields ! 2;
                     mate_rname = fields ! 6
                 in if qname \<in> seen then st
                    else if mate_rname = ''='' \<or> mate_rname = rname
                         then (insert qname seen, n + 1, m)
                         else (insert qname seen, n, m + 1))))"

definition count_intra_inter_pairs :: "string \<Rightarrow> nat \<times> nat" where
  "count_intra_inter_pairs stdout =
     (case foldl pair_step ({}, 0, 0) (py_split newline stdout) of (seen, n, m) \<Rightarrow> (n, m))"

text \<open>
  What the statements say about a line: its fields as the loop computes them, whether
  it passes the two length checks, its read name, whether its mate is on the same
  reference, and the read names of the lines that pass the checks. \<open>counted\<close> is the
  loop invariant: the counters total the number of names seen.
\<close>

definition fields_of :: "string \<Rightarrow> string list" where
  "fields_of line = py_split tab (py_strip line)"

definition record_line :: "string \<Rightarrow> bool" where
  "record_line line = (py_strip line \<noteq> [] \<and> 7 \<le> length (fields_of line))"

definition qname_of :: "string \<Rightarrow> string" where
  "qname_of line = fields_of line ! 0"

definition same_reference :: "string \<Rightarrow> bool" where
  "same_reference line = (fields_of line ! 6 = ''='' \<or> fields_of line ! 6 = fields_of line ! 2)"

definition read_names :: "string list \<Rightarrow> string set" where
  "read_names ls = set (map qname_of (filter record_line ls))"

definition counted :: "pair_state \<Rightarrow> bool" where
  "counted st = (case st of (seen, n, m) \<Rightarrow> finite seen \<and> n + m = card seen)"

text \<open>Three records: a pair on c1, both of its records printed, and a read on c2.\<close>

definition line_r1_first :: string where
  "line_r1_first = py_join tab [''r1'', ''99'', ''c1'', ''1'', ''60'', ''5M'', ''='', ''9'', ''13'']"

definition line_r1_mate :: string where
  "line_r1_mate = py_join tab [''r1'', ''147'', ''c1'', ''9'', ''60'', ''5M'', ''='', ''1'', ''-13'']"

definition line_r2 :: string where
  "line_r2 = py_join tab [''r2'', ''65'', ''c2'', ''4'', ''60'', ''5M'', ''c2'', ''7'', ''8'']"

subsection \<open>Insert-size sampling (sample\_insert\_sizes, lines 50 to 72)\<close>

text \<open>
  The function is a shell pipeline. An alignment is a record of the eleven mandatory
  SAM columns; \<open>sam_text\<close> is the line \<open>samtools view\<close> prints for it, numbers in
  decimal. \<^verbatim>\<open>head -n top_k\<close> keeps the first \<open>top_k\<close> lines of the name list.
  \<^verbatim>\<open>grep -F -f\<close> keeps a line when one of the names occurs in it as a substring,
  anywhere in the line. The \<open>awk\<close> program reads column 9, the template length (the
  first eight columns hold no blanks, so awk's ninth field is that column), selects on
  it and prints its magnitude. An empty output file is replaced by the three default
  values.
\<close>

record sam_record =
  QNAME :: string
  FLAG :: nat
  RNAME :: string
  POS :: nat
  MAPQ :: nat
  CIGAR :: string
  RNEXT :: string
  PNEXT :: nat
  TLEN :: int
  SEQ :: string
  QUAL :: string

fun dec_nat :: "nat \<Rightarrow> string" where
  "dec_nat n =
     (if n < 10 then [''0123456789'' ! n]
      else dec_nat (n div 10) @ [''0123456789'' ! (n mod 10)])"

declare dec_nat.simps [simp del]

definition dec_int :: "int \<Rightarrow> string" where
  "dec_int i = (if i < 0 then CHR ''-'' # dec_nat (nat (- i)) else dec_nat (nat i))"

definition sam_text :: "sam_record \<Rightarrow> string" where
  "sam_text r =
     py_join tab [QNAME r, dec_nat (FLAG r), RNAME r, dec_nat (POS r), dec_nat (MAPQ r),
                  CIGAR r, RNEXT r, dec_nat (PNEXT r), dec_int (TLEN r), SEQ r, QUAL r]"

definition grep_F :: "string list \<Rightarrow> string \<Rightarrow> bool" where
  "grep_F patterns line = list_ex (\<lambda>p. sublist p line) patterns"

definition awk_select :: "sam_record \<Rightarrow> bool" where
  "awk_select r = (TLEN r \<noteq> 0 \<and> TLEN r > - 5000 \<and> TLEN r < 5000)"

definition awk_print :: "sam_record \<Rightarrow> int" where
  "awk_print r = (if TLEN r < 0 then - TLEN r else TLEN r)"

definition sample_insert_sizes :: "sam_record list \<Rightarrow> nat \<Rightarrow> string list \<Rightarrow> int list" where
  "sample_insert_sizes bam top_k contig_sort =
     (let contig_list = take top_k contig_sort;
          kept = filter (\<lambda>r. grep_F contig_list (sam_text r)) bam;
          out = map awk_print (filter awk_select kept)
      in if out = [] then [300, 400, 500] else out)"

text \<open>A read aligned to c10, with its mate on the same reference.\<close>

definition read_on_c10 :: sam_record where
  "read_on_c10 = \<lparr> QNAME = ''r7'', FLAG = 99, RNAME = ''c10'', POS = 5, MAPQ = 60,
      CIGAR = ''5M'', RNEXT = ''='', PNEXT = 40, TLEN = 1234, SEQ = ''ACGTA'', QUAL = ''FFFFF'' \<rparr>"

subsection \<open>Initial parameters (init\_params, lines 74 to 98)\<close>

text \<open>
  \<open>np.percentile\<close> is numpy's, with its default linear interpolation: on the sorted
  array of length n the virtual index is (n - 1) * q / 100, and the result
  interpolates between the entries at its floor and at the next index (clipped to the
  last one). A percentage outside 0 to 100 raises \<open>ValueError\<close>.
\<close>

datatype error = ValueError

definition np_percentile :: "real list \<Rightarrow> real \<Rightarrow> error + real" where
  "np_percentile a q =
     (if q < 0 \<or> 100 < q then Inl ValueError
      else
        (let arr = sort a;
             n = length arr;
             virtual_index = real (n - 1) * (q / 100);
             previous_index = nat \<lfloor>virtual_index\<rfloor>;
             next_index = min (previous_index + 1) (n - 1);
             g = virtual_index - real previous_index
         in Inr (arr ! previous_index + (arr ! next_index - arr ! previous_index) * g)))"

text \<open>
  \<open>ndarray.mean\<close> of an empty array and \<open>ndarray.std(ddof=1)\<close> of an array of at
  most one element are NaN (numpy warns and divides zero by zero). Python's
  \<open>max(a, b)\<close> returns \<open>a\<close> unless \<open>b > a\<close>, so it returns a NaN first argument.
\<close>

definition np_mean :: "real list \<Rightarrow> pyfloat" where
  "np_mean xs = (if xs = [] then NaN else Finite (sum_list xs / real (length xs)))"

definition np_std_ddof1 :: "real list \<Rightarrow> pyfloat" where
  "np_std_ddof1 xs =
     (if length xs \<le> 1 then NaN
      else Finite (sqrt ((\<Sum>x\<leftarrow>xs. (x - sum_list xs / real (length xs))\<^sup>2) / real (length xs - 1))))"

definition py_max :: "pyfloat \<Rightarrow> real \<Rightarrow> pyfloat" where
  "py_max a b = (case a of Finite v \<Rightarrow> (if b > v then Finite b else Finite v) | PosInf \<Rightarrow> PosInf | NaN \<Rightarrow> NaN)"

text \<open>
  Lines 84 to 90: the two boolean masks, then the two positional fallbacks. \<open>split_at\<close>
  is that part of \<open>init_params\<close>, after the quantile \<open>q\<close> has been computed;
  \<open>init_groups\<close> is lines 83 to 90, the two groups that the statistics are taken
  from.
\<close>

definition split_at :: "real list \<Rightarrow> real \<Rightarrow> real list \<times> real list" where
  "split_at data q =
     (let lower = filter (\<lambda>x. x \<le> q) data;
          upper = filter (\<lambda>x. x > q) data;
          lower = (if length lower = 0 then take (max 1 (length data div 2)) data else lower);
          upper = (if length upper = 0 then drop (max 1 (length data div 2)) data else upper)
      in (lower, upper))"

definition init_groups :: "real list \<Rightarrow> real \<Rightarrow> error + (real list \<times> real list)" where
  "init_groups data init_frac =
     (case np_percentile data (init_frac * 100) of
        Inl e \<Rightarrow> Inl e
      | Inr q \<Rightarrow> Inr (split_at data q))"

definition init_params ::
  "real list \<Rightarrow> real \<Rightarrow> error + (pyfloat \<times> pyfloat \<times> pyfloat \<times> pyfloat \<times> real \<times> real)" where
  "init_params data init_frac =
     (if length data = 0 then Inr (Finite 400, Finite 2000, Finite 100, Finite 500, 8 / 10, 2 / 10)
      else
        (case init_groups data init_frac of
           Inl e \<Rightarrow> Inl e
         | Inr (lower, upper) \<Rightarrow>
             (let pi_N' = real (length lower) / real (length data)
              in Inr (np_mean lower, np_mean upper,
                      py_max (np_std_ddof1 lower) 1, py_max (np_std_ddof1 upper) 1,
                      pi_N', 1 - pi_N'))))"

subsection \<open>EM fit (em\_mix, lines 100 to 143)\<close>

text \<open>
  The six scalars the loop updates are the fields of one record. \<open>norm.pdf\<close> is
  scipy's Gaussian density with location and scale; scipy returns NaN for a scale that
  is not positive, which the real-valued model does not represent, so statements that
  depend on the density's value assume positive scales.
\<close>

record mixture_params =
  mu_N :: real
  mu_C :: real
  sigma_N :: real
  sigma_C :: real
  pi_N :: real
  pi_C :: real

definition norm_pdf :: "real \<Rightarrow> real \<Rightarrow> real \<Rightarrow> real" where
  "norm_pdf x loc scale = exp (- (((x - loc) / scale)\<^sup>2) / 2) / (sqrt (2 * pi) * scale)"

text \<open>E-step, lines 109 to 117: one entry per sample value.\<close>

definition wC :: "mixture_params \<Rightarrow> real \<Rightarrow> real" where
  "wC p x = pi_C p * norm_pdf x (mu_C p) (sigma_C p)"

definition wN :: "mixture_params \<Rightarrow> real \<Rightarrow> real" where
  "wN p x = pi_N p * norm_pdf x (mu_N p) (sigma_N p)"

definition total :: "mixture_params \<Rightarrow> real \<Rightarrow> real" where
  "total p x = max (wC p x + wN p x) (1 / 10 ^ 10)"

definition gamma_C :: "mixture_params \<Rightarrow> real \<Rightarrow> real" where
  "gamma_C p x = wC p x / total p x"

definition gamma_N :: "mixture_params \<Rightarrow> real \<Rightarrow> real" where
  "gamma_N p x = wN p x / total p x"

text \<open>
  M-step, lines 120 to 132. \<open>sigma_C\<close> is computed from the mean that has just been
  updated; a component whose responsibilities sum to nothing positive keeps its mean
  and deviation. The sample is non-empty here (line 102), so the means of the
  responsibilities divide by a positive length.
\<close>

definition em_step :: "real list \<Rightarrow> mixture_params \<Rightarrow> mixture_params" where
  "em_step data p =
     (let sum_gamma_C = (\<Sum>x\<leftarrow>data. gamma_C p x);
          sum_gamma_N = (\<Sum>x\<leftarrow>data. gamma_N p x);
          mu_C' = (if sum_gamma_C > 0
                   then (\<Sum>x\<leftarrow>data. gamma_C p x * x) / sum_gamma_C else mu_C p);
          sigma_C' = (if sum_gamma_C > 0
                      then max (sqrt ((\<Sum>x\<leftarrow>data. gamma_C p x * (x - mu_C')\<^sup>2) / sum_gamma_C))
                               (1 / 10 ^ 6)
                      else sigma_C p);
          mu_N' = (if sum_gamma_N > 0
                   then (\<Sum>x\<leftarrow>data. gamma_N p x * x) / sum_gamma_N else mu_N p);
          sigma_N' = (if sum_gamma_N > 0
                      then max (sqrt ((\<Sum>x\<leftarrow>data. gamma_N p x * (x - mu_N')\<^sup>2) / sum_gamma_N))
                               (1 / 10 ^ 6)
                      else sigma_N p)
      in \<lparr> mu_N = mu_N', mu_C = mu_C', sigma_N = sigma_N', sigma_C = sigma_C',
           pi_N = sum_gamma_N / real (length data),
           pi_C = sum_gamma_C / real (length data) \<rparr>)"

text \<open>Lines 134 and 135: the log-likelihood under the updated parameters.\<close>

definition log_likelihood :: "real list \<Rightarrow> mixture_params \<Rightarrow> real" where
  "log_likelihood data p = (\<Sum>x\<leftarrow>data. ln (wC p x + wN p x))"

text \<open>
  The \<open>for iteration in range(max_iter)\<close> loop, by recursion on the iterations left.
  \<open>logL\<close> is \<open>None\<close> before the first iteration; a later iteration whose
  log-likelihood differs from the previous one by less than \<open>tol\<close> breaks out with the
  parameters it has just computed.
\<close>

fun em_loop :: "nat \<Rightarrow> real list \<Rightarrow> real \<Rightarrow> mixture_params \<Rightarrow> real option \<Rightarrow> mixture_params" where
  "em_loop 0 data tol p logL = p"
| "em_loop (Suc k) data tol p logL =
     (let p' = em_step data p;
          new_logL = log_likelihood data p'
      in if (case logL of None \<Rightarrow> False | Some l \<Rightarrow> \<bar>new_logL - l\<bar> < tol) then p'
         else em_loop k data tol p' (Some new_logL))"

text \<open>
  \<open>em_mix\<close> takes its arguments in the order of the source's signature and returns
  the tuple in the order of the source's \<open>return\<close>: chimeric component first.
\<close>

definition em_mix ::
  "real list \<Rightarrow> real \<Rightarrow> real \<Rightarrow> real \<Rightarrow> real \<Rightarrow> real \<Rightarrow> real \<Rightarrow> real \<Rightarrow> nat
     \<Rightarrow> real \<times> real \<times> real \<times> real \<times> real \<times> real" where
  "em_mix data mu_N0 mu_C0 sigma_N0 sigma_C0 pi_N0 pi_C0 tol max_iter =
     (if length data = 0 then (mu_C0, mu_N0, sigma_C0, sigma_N0, pi_C0, pi_N0)
      else
        (let p = em_loop max_iter data tol
                   \<lparr> mu_N = mu_N0, mu_C = mu_C0, sigma_N = sigma_N0, sigma_C = sigma_C0,
                     pi_N = pi_N0, pi_C = pi_C0 \<rparr> None
         in (mu_C p, mu_N p, sigma_C p, sigma_N p, pi_C p, pi_N p)))"

text \<open>
  Predicates and auxiliary functions of the statements below. \<open>sigma_ok\<close> is the
  floor on both deviations. \<open>floor_inactive\<close> says that line 114 changes nothing:
  at every sample value the unnormalised weights already sum to at least 1e-10.
  \<open>em_last_input\<close> follows \<open>em_loop\<close> and returns the parameters with which the
  last iteration that \<open>em_loop\<close> executes starts.
\<close>

definition sigma_ok :: "mixture_params \<Rightarrow> bool" where
  "sigma_ok p = (1 / 10 ^ 6 \<le> sigma_C p \<and> 1 / 10 ^ 6 \<le> sigma_N p)"

definition floor_inactive :: "real list \<Rightarrow> mixture_params \<Rightarrow> bool" where
  "floor_inactive data p = (\<forall>x \<in> set data. 1 / 10 ^ 10 \<le> wC p x + wN p x)"

fun em_last_input :: "nat \<Rightarrow> real list \<Rightarrow> real \<Rightarrow> mixture_params \<Rightarrow> real option \<Rightarrow> mixture_params" where
  "em_last_input 0 data tol p logL = p"
| "em_last_input (Suc k) data tol p logL =
     (let p' = em_step data p;
          new_logL = log_likelihood data p'
      in if (case logL of None \<Rightarrow> False | Some l \<Rightarrow> \<bar>new_logL - l\<bar> < tol) \<or> k = 0 then p
         else em_last_input k data tol p' (Some new_logL))"

text \<open>
  A fit started at two tight components, one at 100 and one at 3000, with equal
  weights.
\<close>

definition p_far :: mixture_params where
  "p_far = \<lparr> mu_N = 100, mu_C = 3000, sigma_N = 1, sigma_C = 1, pi_N = 1 / 2, pi_C = 1 / 2 \<rparr>"

section \<open>Theorems\<close>

text \<open>
  C5. For every chimeric weight and all counts n, m the estimator returns
  long\_range\_ratio = (n * pi\_C + m) / (n + m), NaN when n + m = 0, and
  3d\_ratio = m / n, plus infinity when n = 0. At n = 0, m = 5, pi\_C = 0.3 the two
  ratios are 1.0 and plus infinity.
\<close>

theorem chimeric_ratios:
  "long_range_ratio n m piC =
     (if n + m = 0 then NaN else Finite ((real n * piC + real m) / (real n + real m)))
   \<and> ratio_3d n m = (if n = 0 then PosInf else Finite (real m / real n))
   \<and> long_range_ratio 0 5 (3 / 10) = Finite 1
   \<and> ratio_3d 0 5 = PosInf"
  by (simp add: long_range_ratio_def ratio_3d_def)

text \<open>
  C2. With th\_C and th\_N the two thresholds, the cutoff is max(min(th\_C, th\_N), 100)
  when both are positive, max(th\_C, 100) when th\_N is not positive, max(th\_N, 100)
  when th\_C is not positive, and 500 when the computation of a threshold fails; it is
  never below 100.
\<close>

theorem derive_cutoff_policy:
  "(ppf (5 / 100) = Some z05 \<and> ppf (95 / 100) = Some z95 \<longrightarrow>
      (0 < muC + z05 * sigmaC \<and> 0 < muN + z95 * sigmaN \<longrightarrow>
         derive_cutoff ppf muC muN sigmaC sigmaN
           = max (min (muC + z05 * sigmaC) (muN + z95 * sigmaN)) 100)
      \<and> (muN + z95 * sigmaN \<le> 0 \<longrightarrow>
         derive_cutoff ppf muC muN sigmaC sigmaN = max (muC + z05 * sigmaC) 100)
      \<and> (muC + z05 * sigmaC \<le> 0 \<longrightarrow>
         derive_cutoff ppf muC muN sigmaC sigmaN = max (muN + z95 * sigmaN) 100))
   \<and> (ppf (5 / 100) = None \<or> ppf (95 / 100) = None \<longrightarrow>
         derive_cutoff ppf muC muN sigmaC sigmaN = 500)
   \<and> 100 \<le> derive_cutoff ppf muC muN sigmaC sigmaN"
  by (auto simp: derive_cutoff_def Let_def split: option.splits)

theorem derive_cutoff_policy_witness:
  "derive_cutoff (\<lambda>q. if q = 5 / 100 then Some (- 2) else Some 2) 2000 400 300 100 = 600
   \<and> derive_cutoff (\<lambda>q. if q = 5 / 100 then Some (- 2) else Some 2) 2000 (- 1000) 300 100 = 1400
   \<and> derive_cutoff (\<lambda>q. if q = 5 / 100 then Some (- 2) else Some 2) 500 400 300 100 = 600
   \<and> derive_cutoff (\<lambda>q. None) 2000 400 300 100 = 500"
  using derive_cutoff_policy [of "\<lambda>q. if q = 5 / 100 then Some (- 2) else Some 2" "- 2" 2 2000 300 400 100]
        derive_cutoff_policy [of "\<lambda>q. if q = 5 / 100 then Some (- 2) else Some 2" "- 2" 2 2000 300 "- 1000" 100]
        derive_cutoff_policy [of "\<lambda>q. if q = 5 / 100 then Some (- 2) else Some 2" "- 2" 2 500 300 400 100]
        derive_cutoff_policy [of "\<lambda>q. None" 0 0 2000 300 400 100]
  by simp

text \<open>
  C8. On an empty sample the fit performs no iteration and returns the six initial
  parameters unchanged, in the order of its return statement.
\<close>

theorem em_mix_empty:
  "em_mix [] mu_N0 mu_C0 sigma_N0 sigma_C0 pi_N0 pi_C0 tol max_iter
     = (mu_C0, mu_N0, sigma_C0, sigma_N0, pi_C0, pi_N0)"
  by (simp add: em_mix_def)

subsection \<open>The EM iteration\<close>

lemma floor_keep: "(c::real) \<le> s \<Longrightarrow> c \<le> (if b then max a c else s)"
  by simp

lemma em_step_sigma: "sigma_ok p \<Longrightarrow> sigma_ok (em_step data p)"
  unfolding em_step_def Let_def sigma_ok_def
  by (simp only: mixture_params.select_convs floor_keep simp_thms)

lemma em_iter_sigma: "sigma_ok p \<Longrightarrow> sigma_ok ((em_step data ^^ i) p)"
  by (induction i) (simp_all add: em_step_sigma)

lemma em_loop_sigma: "sigma_ok p \<Longrightarrow> sigma_ok (em_loop k data tol p logL)"
proof (induction k arbitrary: p logL)
  case 0
  then show ?case by simp
next
  case (Suc k)
  have s: "sigma_ok (em_step data p)"
    using Suc.prems by (rule em_step_sigma)
  show ?case
    using s Suc.IH [OF s] by (simp add: Let_def)
qed

text \<open>
  C6. When both initial standard deviations are at least 1e-6, so are both deviations
  that the fit returns and both deviations after every number of iterations, for
  every sample, tolerance and iteration cap.
\<close>

theorem em_sigma_floor:
  assumes "1 / 10 ^ 6 \<le> sigmaN0" and "1 / 10 ^ 6 \<le> sigmaC0"
  shows "(case em_mix data muN0 muC0 sigmaN0 sigmaC0 piN0 piC0 tol max_iter of
            (muC, muN, sigmaC, sigmaN, piC, piN) \<Rightarrow> 1 / 10 ^ 6 \<le> sigmaC \<and> 1 / 10 ^ 6 \<le> sigmaN)
         \<and> (\<forall>i. sigma_ok ((em_step data ^^ i)
                  \<lparr> mu_N = muN0, mu_C = muC0, sigma_N = sigmaN0, sigma_C = sigmaC0,
                    pi_N = piN0, pi_C = piC0 \<rparr>))"
proof -
  let ?p = "\<lparr> mu_N = muN0, mu_C = muC0, sigma_N = sigmaN0, sigma_C = sigmaC0,
              pi_N = piN0, pi_C = piC0 \<rparr>"
  have ok: "sigma_ok ?p"
    unfolding sigma_ok_def using assms by (simp only: mixture_params.select_convs simp_thms)
  have loop: "sigma_ok (em_loop max_iter data tol ?p None)"
    using ok by (rule em_loop_sigma)
  have out: "case em_mix data muN0 muC0 sigmaN0 sigmaC0 piN0 piC0 tol max_iter of
            (muC, muN, sigmaC, sigmaN, piC, piN) \<Rightarrow> 1 / 10 ^ 6 \<le> sigmaC \<and> 1 / 10 ^ 6 \<le> sigmaN"
  proof (cases "length data = 0")
    case True
    then show ?thesis using assms by (simp add: em_mix_def)
  next
    case False
    then show ?thesis using loop unfolding sigma_ok_def by (simp add: em_mix_def Let_def)
  qed
  show ?thesis using out em_iter_sigma [OF ok] by blast
qed

theorem em_sigma_floor_witness:
  "(case em_mix [100, 3000] 100 3000 1 1 (1 / 2) (1 / 2) (1 / 100) 100 of
            (muC, muN, sigmaC, sigmaN, piC, piN) \<Rightarrow> 1 / 10 ^ 6 \<le> sigmaC \<and> 1 / 10 ^ 6 \<le> sigmaN)"
  using em_sigma_floor [of 1 1 "[100, 3000]" 100 3000 "1 / 2" "1 / 2" "1 / 100" 100]
  by simp

lemma em_loop_last:
  "0 < k \<Longrightarrow> em_loop k data tol p logL = em_step data (em_last_input k data tol p logL)"
proof (induction k arbitrary: p logL)
  case 0
  then show ?case by simp
next
  case (Suc k)
  show ?case
  proof (cases k)
    case 0
    then show ?thesis by (simp add: Let_def)
  next
    case (Suc j)
    then have k: "0 < k" by simp
    show ?thesis using k Suc.IH [OF k] by (simp add: Let_def)
  qed
qed

lemma gamma_sum_one:
  assumes "1 / 10 ^ 10 \<le> wC p x + wN p x"
  shows "gamma_C p x + gamma_N p x = 1"
proof -
  have pos: "0 < wC p x + wN p x"
    using assms by (rule less_le_trans [rotated]) simp
  have t: "total p x = wC p x + wN p x"
    using assms by (simp add: total_def max_def)
  have "gamma_C p x + gamma_N p x = (wC p x + wN p x) / (wC p x + wN p x)"
    by (simp only: gamma_C_def gamma_N_def t add_divide_distrib)
  also have "\<dots> = 1" using pos by simp
  finally show ?thesis .
qed

lemma sum_gamma_length:
  "floor_inactive data p \<Longrightarrow>
   (\<Sum>x\<leftarrow>data. gamma_N p x) + (\<Sum>x\<leftarrow>data. gamma_C p x) = real (length data)"
proof (induction data)
  case Nil
  then show ?case by simp
next
  case (Cons a data)
  have a: "gamma_C p a + gamma_N p a = 1"
    using Cons.prems by (intro gamma_sum_one) (simp add: floor_inactive_def)
  have "floor_inactive data p" using Cons.prems by (simp add: floor_inactive_def)
  then have "(\<Sum>x\<leftarrow>data. gamma_N p x) + (\<Sum>x\<leftarrow>data. gamma_C p x) = real (length data)"
    by (rule Cons.IH)
  then show ?case using a by simp
qed

lemma em_step_pi_sum:
  assumes "data \<noteq> []" and "floor_inactive data p"
  shows "pi_N (em_step data p) + pi_C (em_step data p) = 1"
proof -
  have n: "0 < real (length data)" using assms(1) by simp
  have "pi_N (em_step data p) + pi_C (em_step data p)
        = ((\<Sum>x\<leftarrow>data. gamma_N p x) + (\<Sum>x\<leftarrow>data. gamma_C p x)) / real (length data)"
    by (simp add: em_step_def Let_def add_divide_distrib)
  also have "\<dots> = 1" using sum_gamma_length [OF assms(2)] n by simp
  finally show ?thesis .
qed


lemma norm_pdf_nonneg: "0 < scale \<Longrightarrow> 0 \<le> norm_pdf x loc scale"
  by (simp add: norm_pdf_def)

lemma gamma_sum_le_one:
  assumes "0 \<le> wC p x" and "0 \<le> wN p x"
  shows "gamma_C p x + gamma_N p x \<le> 1"
proof -
  have pos: "0 < total p x" by (simp add: total_def max_def)
  have le: "wC p x + wN p x \<le> total p x" by (simp add: total_def)
  have "gamma_C p x + gamma_N p x = (wC p x + wN p x) / total p x"
    by (simp only: gamma_C_def gamma_N_def add_divide_distrib)
  also have "\<dots> \<le> 1" using pos le by simp
  finally show ?thesis .
qed

lemma gamma_sum_small:
  assumes "0 \<le> wC p x" and "0 \<le> wN p x" and "wC p x + wN p x \<le> 1 / 10 ^ 11"
  shows "gamma_C p x + gamma_N p x \<le> 1 / 10"
proof -
  have t: "total p x = 1 / 10 ^ 10" using assms(3) by (simp add: total_def max_def)
  have "gamma_C p x + gamma_N p x = (wC p x + wN p x) / total p x"
    by (simp only: gamma_C_def gamma_N_def add_divide_distrib)
  also have "\<dots> = (wC p x + wN p x) * 10 ^ 10" by (simp add: t)
  also have "\<dots> \<le> (1 / 10 ^ 11) * 10 ^ 10"
    using assms(3) by (intro mult_right_mono) simp_all
  also have "\<dots> = 1 / 10" by simp
  finally show ?thesis .
qed

lemma exp_minus_50: "exp (- 50 :: real) \<le> 1 / 10 ^ 11"
proof -
  have "(2::real) \<le> exp 1" using exp_ge_add_one_self [of "1::real"] by simp
  then have "(2::real) ^ 50 \<le> exp 1 ^ 50" by (intro power_mono) simp_all
  also have "\<dots> = exp (50::real)" using exp_of_nat_mult [of 50 "1::real"] by simp
  finally have big: "(10::real) ^ 11 \<le> exp 50" by simp
  have "exp (- 50 :: real) = 1 / exp 50" by (simp add: exp_minus inverse_eq_divide)
  also have "\<dots> \<le> 1 / 10 ^ 11" using big by (intro divide_left_mono) simp_all
  finally show ?thesis .
qed

lemma sqrt_two_pi_ge_one: "1 \<le> sqrt (2 * pi)"
  using pi_ge_two by simp

lemma norm_pdf_far:
  assumes "100 \<le> (x - loc)\<^sup>2"
  shows "norm_pdf x loc 1 \<le> 1 / 10 ^ 11"
proof -
  have "exp (- ((x - loc)\<^sup>2) / 2) \<le> exp (- 50)" using assms by simp
  then have e: "exp (- ((x - loc)\<^sup>2) / 2) \<le> 1 / 10 ^ 11"
    using exp_minus_50 by (rule order_trans)
  have "norm_pdf x loc 1 = exp (- ((x - loc)\<^sup>2) / 2) / sqrt (2 * pi)"
    by (simp add: norm_pdf_def)
  also have "\<dots> \<le> exp (- ((x - loc)\<^sup>2) / 2) / 1"
    using sqrt_two_pi_ge_one by (intro divide_left_mono) simp_all
  also have "\<dots> \<le> 1 / 10 ^ 11" using e by simp
  finally show ?thesis .
qed

lemma p_far_w_nonneg: "0 \<le> wC p_far x" "0 \<le> wN p_far x"
  by (simp_all add: wC_def wN_def p_far_def norm_pdf_nonneg)

lemma p_far_mid: "wC p_far 1500 + wN p_far 1500 \<le> 1 / 10 ^ 11"
proof -
  have c: "norm_pdf 1500 3000 1 \<le> 1 / 10 ^ 11" by (rule norm_pdf_far) simp
  have n: "norm_pdf 1500 100 1 \<le> 1 / 10 ^ 11" by (rule norm_pdf_far) simp
  have "wC p_far 1500 + wN p_far 1500 = (norm_pdf 1500 3000 1 + norm_pdf 1500 100 1) / 2"
    by (simp add: wC_def wN_def p_far_def)
  also have "\<dots> \<le> 1 / 10 ^ 11" using c n by simp
  finally show ?thesis .
qed

lemma p_far_pi_sum:
  "pi_N (em_step [100, 1500, 3000] p_far) + pi_C (em_step [100, 1500, 3000] p_far) \<le> 7 / 10"
proof -
  have a: "gamma_C p_far 100 + gamma_N p_far 100 \<le> 1"
    by (rule gamma_sum_le_one) (rule p_far_w_nonneg)+
  have b: "gamma_C p_far 1500 + gamma_N p_far 1500 \<le> 1 / 10"
    by (rule gamma_sum_small) (rule p_far_w_nonneg p_far_mid)+
  have c: "gamma_C p_far 3000 + gamma_N p_far 3000 \<le> 1"
    by (rule gamma_sum_le_one) (rule p_far_w_nonneg)+
  have "pi_N (em_step [100, 1500, 3000] p_far) + pi_C (em_step [100, 1500, 3000] p_far)
        = ((gamma_C p_far 100 + gamma_N p_far 100) + (gamma_C p_far 1500 + gamma_N p_far 1500)
            + (gamma_C p_far 3000 + gamma_N p_far 3000)) / 3"
    by (simp add: em_step_def Let_def add_divide_distrib)
  also have "\<dots> \<le> 7 / 10" using a b c by simp
  finally show ?thesis .
qed

lemma sqrt_two_pi_le_three: "sqrt (2 * pi) \<le> 3"
proof -
  have "sqrt (2 * pi) \<le> sqrt 9" using pi_less_4 by (intro real_sqrt_le_mono) simp
  also have "\<dots> = 3" using real_sqrt_abs [of 3] by simp
  finally show ?thesis .
qed

lemma norm_pdf_at_mean: "1 / 3 \<le> norm_pdf x x 1"
proof -
  have "norm_pdf x x 1 = 1 / sqrt (2 * pi)" by (simp add: norm_pdf_def)
  moreover have "1 / 3 \<le> 1 / sqrt (2 * pi)"
    using sqrt_two_pi_le_three by (intro divide_left_mono) simp_all
  ultimately show ?thesis by simp
qed

lemma p_far_floor_inactive: "floor_inactive [100, 3000] p_far"
proof -
  have a: "1 / 10 ^ 10 \<le> wC p_far 100 + wN p_far 100"
  proof -
    have "1 / 6 \<le> wN p_far 100"
      using norm_pdf_at_mean [of 100] by (simp add: wN_def p_far_def)
    then show ?thesis using p_far_w_nonneg(1) [of 100] by simp
  qed
  have b: "1 / 10 ^ 10 \<le> wC p_far 3000 + wN p_far 3000"
  proof -
    have "1 / 6 \<le> wC p_far 3000"
      using norm_pdf_at_mean [of 3000] by (simp add: wC_def p_far_def)
    then show ?thesis using p_far_w_nonneg(2) [of 3000] by simp
  qed
  show ?thesis using a b by (simp add: floor_inactive_def)
qed

text \<open>
  C1, as stated, fails: the floor of line 114 replaces a sum of weights below 1e-10 by
  1e-10, and the responsibilities of such a sample value then sum to less than one. In
  the sample 100, 1500, 3000 fitted from \<open>p_far\<close> the value 1500 lies 1400 deviations
  from either mean, and after one iteration the two weights sum to at most 0.7.
\<close>

theorem em_weights_sum_counterexample:
  "\<not> \<bar>pi_N (em_step [100, 1500, 3000] p_far) + pi_C (em_step [100, 1500, 3000] p_far) - 1\<bar> \<le> 1 / 10 ^ 9
   \<and> \<not> (case em_mix [100, 1500, 3000] 100 3000 1 1 (1 / 2) (1 / 2) (1 / 100) 1 of
          (muC, muN, sigmaC, sigmaN, piC, piN) \<Rightarrow> \<bar>piN + piC - 1\<bar> \<le> 1 / 10 ^ 9)"
proof -
  have e: "em_mix [100, 1500, 3000] 100 3000 1 1 (1 / 2) (1 / 2) (1 / 100) 1
     = (let p = em_step [100, 1500, 3000] p_far
        in (mu_C p, mu_N p, sigma_C p, sigma_N p, pi_C p, pi_N p))"
    by (simp add: em_mix_def p_far_def Let_def)
  show ?thesis unfolding e Let_def using p_far_pi_sum by simp
qed


text \<open>
  C1, amended. On a non-empty sample, an iteration in which the floor is not reached at
  any sample value has gamma\_N = 1 - gamma\_C at every sample value and produces
  weights with pi\_N + pi\_C = 1; the weights that the fit returns sum to one when
  the floor is not reached in the last iteration it executes.
\<close>

theorem em_weights_sum:
  assumes "data \<noteq> []"
  shows "(floor_inactive data p \<longrightarrow>
            (\<forall>x \<in> set data. gamma_N p x = 1 - gamma_C p x)
            \<and> pi_N (em_step data p) + pi_C (em_step data p) = 1)
         \<and> (0 < max_iter
            \<and> floor_inactive data
                 (em_last_input max_iter data tol
                    \<lparr> mu_N = muN0, mu_C = muC0, sigma_N = sigmaN0, sigma_C = sigmaC0,
                      pi_N = piN0, pi_C = piC0 \<rparr> None) \<longrightarrow>
            (case em_mix data muN0 muC0 sigmaN0 sigmaC0 piN0 piC0 tol max_iter of
               (muC, muN, sigmaC, sigmaN, piC, piN) \<Rightarrow> piN + piC = 1))"
proof (intro conjI impI)
  assume fi: "floor_inactive data p"
  show "\<forall>x \<in> set data. gamma_N p x = 1 - gamma_C p x"
  proof
    fix x assume "x \<in> set data"
    then have "1 / 10 ^ 10 \<le> wC p x + wN p x" using fi by (simp add: floor_inactive_def)
    then have "gamma_C p x + gamma_N p x = 1" by (rule gamma_sum_one)
    then show "gamma_N p x = 1 - gamma_C p x" by simp
  qed
  show "pi_N (em_step data p) + pi_C (em_step data p) = 1"
    using assms fi by (rule em_step_pi_sum)
next
  let ?p0 = "\<lparr> mu_N = muN0, mu_C = muC0, sigma_N = sigmaN0, sigma_C = sigmaC0,
               pi_N = piN0, pi_C = piC0 \<rparr>"
  assume h: "0 < max_iter \<and> floor_inactive data (em_last_input max_iter data tol ?p0 None)"
  then have last: "em_loop max_iter data tol ?p0 None
                   = em_step data (em_last_input max_iter data tol ?p0 None)"
    by (intro em_loop_last) simp
  have "pi_N (em_loop max_iter data tol ?p0 None) + pi_C (em_loop max_iter data tol ?p0 None) = 1"
    unfolding last using assms h by (intro em_step_pi_sum) simp_all
  then show "case em_mix data muN0 muC0 sigmaN0 sigmaC0 piN0 piC0 tol max_iter of
               (muC, muN, sigmaC, sigmaN, piC, piN) \<Rightarrow> piN + piC = 1"
    using assms by (simp add: em_mix_def Let_def)
qed

theorem em_weights_sum_witness:
  "gamma_N p_far 100 = 1 - gamma_C p_far 100
   \<and> gamma_N p_far 3000 = 1 - gamma_C p_far 3000
   \<and> pi_N (em_step [100, 3000] p_far) + pi_C (em_step [100, 3000] p_far) = 1
   \<and> (case em_mix [100, 3000] 100 3000 1 1 (1 / 2) (1 / 2) (1 / 100) 1 of
         (muC, muN, sigmaC, sigmaN, piC, piN) \<Rightarrow> piN + piC = 1)"
proof -
  have ne: "[100, 3000 :: real] \<noteq> []" by simp
  have l: "em_last_input 1 [100, 3000] (1 / 100)
             \<lparr> mu_N = 100, mu_C = 3000, sigma_N = 1, sigma_C = 1, pi_N = 1 / 2, pi_C = 1 / 2 \<rparr> None
           = p_far"
    by (simp add: p_far_def)
  show ?thesis
    using em_weights_sum [OF ne, of p_far 1 "1 / 100" 100 3000 1 1 "1 / 2" "1 / 2"]
          p_far_floor_inactive
    unfolding l by simp
qed

subsection \<open>The initial split\<close>

lemma percentile_example: "np_percentile [100, 100, 100, 3000, 3000] 80 = Inr 3000"
  by (simp add: np_percentile_def Let_def)

lemma split_example:
  "split_at [100, 100, 100, 3000, 3000] 3000 = ([100, 100, 100, 3000, 3000], [100, 3000, 3000])"
  by (simp add: split_at_def Let_def)

text \<open>
  Whatever the quantile is, the sample 100, 100, 100, 3000, 3000 is never split into
  four and one: the statement below does not depend on how the percentile interpolates.
\<close>

lemma split_never_four_one:
  "split_at [100, 100, 100, 3000, 3000] q = (lower, upper) \<Longrightarrow>
     \<not> (length lower = 4 \<and> length upper = 1)"
  by (auto simp: split_at_def Let_def split: if_splits)

text \<open>A sample of at least two values always gets two non-empty groups.\<close>

lemma split_nonempty:
  assumes "2 \<le> length data"
  shows "fst (split_at data q) \<noteq> [] \<and> snd (split_at data q) \<noteq> []"
proof -
  have h: "1 \<le> length data div 2" "length data div 2 < length data" using assms by auto
  then have m: "max 1 (length data div 2) = length data div 2" by simp
  have t: "take (length data div 2) data \<noteq> []" using h assms by auto
  have d: "drop (length data div 2) data \<noteq> []" using h by simp
  show ?thesis using t d by (simp add: split_at_def Let_def m)
qed

text \<open>
  C3, as stated, fails. The 80th percentile of 100, 100, 100, 3000, 3000 is 3000 (the
  virtual index 3.2 lies between the two entries 3000), not 100; every value is at most
  3000, so the lower group is the whole sample and the upper mask is empty, and the
  groups are not four and one.
\<close>

theorem init_params_example_counterexample:
  "np_percentile [100, 100, 100, 3000, 3000] (4 / 5 * 100) \<noteq> Inr 100
   \<and> \<not> (case init_groups [100, 100, 100, 3000, 3000] (4 / 5) of
          Inl e \<Rightarrow> False
        | Inr (lower, upper) \<Rightarrow> length lower = 4 \<and> length upper = 1)"
  by (simp add: init_groups_def percentile_example split_example)

text \<open>
  C3, amended. For the sample 100, 100, 100, 3000, 3000 and split fraction 0.8 the
  quantile is 3000; the lower group is the whole sample and the upper group is the
  positional fallback, the last three values 100, 3000, 3000; mu\_N = 1260,
  mu\_C = 6100 / 3, sigma\_N = sqrt 2523000, sigma\_C = sqrt (8410000 / 3),
  pi\_N = 1 and pi\_C = 0.
\<close>

theorem init_params_example:
  "np_percentile [100, 100, 100, 3000, 3000] (4 / 5 * 100) = Inr 3000
   \<and> init_groups [100, 100, 100, 3000, 3000] (4 / 5)
       = Inr ([100, 100, 100, 3000, 3000], [100, 3000, 3000])
   \<and> init_params [100, 100, 100, 3000, 3000] (4 / 5)
       = Inr (Finite 1260, Finite (6100 / 3), Finite (sqrt 2523000),
              Finite (sqrt (8410000 / 3)), 1, 0)"
  by (simp add: init_params_def init_groups_def percentile_example split_example Let_def
        np_mean_def np_std_ddof1_def py_max_def power2_eq_square)

text \<open>
  C7 at a sample of one value. The quantile is the value itself, the upper mask is
  empty, and the fallback \<open>data[max(1, len(data)//2):]\<close> is \<open>data[1:]\<close>, which is
  empty as well: mu\_C is the mean of no data, NaN, and both deviations are NaN.
\<close>

theorem init_params_single_value:
  "init_groups [300] (4 / 5) = Inr ([300], [])
   \<and> init_params [300] (4 / 5) = Inr (Finite 300, NaN, NaN, NaN, 1, 0)"
  by (simp add: init_params_def init_groups_def np_percentile_def split_at_def Let_def
        np_mean_def np_std_ddof1_def py_max_def)

subsection \<open>Pair counting\<close>

lemma py_split_nonempty: "py_split sep s \<noteq> []"
  by (induction s) (auto split: list.splits)

lemma py_split_append: "py_split sep (a @ sep # b) = py_split sep a @ py_split sep b"
proof (induction a)
  case Nil
  then show ?case by simp
next
  case (Cons c a)
  obtain w ws where ws: "py_split sep a = w # ws"
    using py_split_nonempty [of sep a] by (cases "py_split sep a") auto
  show ?case using Cons.IH ws by simp
qed

lemma py_split_no_sep: "sep \<notin> set s \<Longrightarrow> py_split sep s = [s]"
  by (induction s) auto

lemma pair_step_cases:
  "pair_step (seen, n, m) line =
     (if \<not> record_line line \<or> qname_of line \<in> seen then (seen, n, m)
      else if same_reference line then (insert (qname_of line) seen, n + 1, m)
      else (insert (qname_of line) seen, n, m + 1))"
  by (auto simp: pair_step_def record_line_def qname_of_def same_reference_def fields_of_def Let_def)

lemma pair_step_seen:
  "fst (pair_step (seen, n, m) line) = (if record_line line then insert (qname_of line) seen else seen)"
  by (auto simp: pair_step_cases)

lemma foldl_seen:
  "fst (foldl pair_step st ls) = fst st \<union> read_names ls"
proof (induction ls arbitrary: st)
  case Nil
  then show ?case by (simp add: read_names_def)
next
  case (Cons l ls)
  obtain seen n m where st: "st = (seen, n, m)" by (cases st) auto
  have "fst (foldl pair_step (pair_step st l) ls) = fst (pair_step st l) \<union> read_names ls"
    by (rule Cons.IH)
  then show ?case unfolding st by (auto simp: pair_step_seen read_names_def)
qed

lemma pair_step_counted: "counted st \<Longrightarrow> counted (pair_step st line)"
proof -
  assume c: "counted st"
  obtain seen n m where st: "st = (seen, n, m)" by (cases st) auto
  show ?thesis using c unfolding st by (auto simp: counted_def pair_step_cases)
qed

lemma foldl_counted: "counted st \<Longrightarrow> counted (foldl pair_step st ls)"
  by (induction ls arbitrary: st) (simp_all add: pair_step_counted)

lemma pair_step_inter:
  "record_line line \<longrightarrow> same_reference line \<Longrightarrow>
   snd (snd (pair_step st line)) = snd (snd st)"
proof -
  assume h: "record_line line \<longrightarrow> same_reference line"
  obtain seen n m where st: "st = (seen, n, m)" by (cases st) auto
  show ?thesis using h unfolding st by (auto simp: pair_step_cases)
qed

lemma foldl_inter:
  "\<forall>l \<in> set ls. record_line l \<longrightarrow> same_reference l \<Longrightarrow>
   snd (snd (foldl pair_step st ls)) = snd (snd st)"
proof (induction ls arbitrary: st)
  case Nil
  then show ?case by simp
next
  case (Cons l ls)
  have a: "snd (snd (pair_step st l)) = snd (snd st)"
    using Cons.prems by (intro pair_step_inter) simp
  have "snd (snd (foldl pair_step (pair_step st l) ls)) = snd (snd (pair_step st l))"
    using Cons.prems by (intro Cons.IH) simp
  then show ?case using a by simp
qed

lemma pair_step_seen_again:
  "qname_of line \<in> fst st \<Longrightarrow> pair_step st line = st"
proof -
  assume h: "qname_of line \<in> fst st"
  obtain seen n m where st: "st = (seen, n, m)" by (cases st) auto
  show ?thesis using h unfolding st by (simp add: pair_step_cases)
qed

lemma foldl_seen_again:
  assumes "qname_of l \<in> read_names xs"
  shows "foldl pair_step st (xs @ l # ys) = foldl pair_step st (xs @ ys)"
proof -
  have "qname_of l \<in> fst (foldl pair_step st xs)" using assms by (simp add: foldl_seen)
  then have "pair_step (foldl pair_step st xs) l = foldl pair_step st xs"
    by (rule pair_step_seen_again)
  then show ?thesis by simp
qed

text \<open>
  C10. For every output of the record scan, n + m is the number of distinct read names
  among the lines that are not blank and have at least seven fields.
\<close>

theorem pair_counts_total:
  "fst (count_intra_inter_pairs stdout) + snd (count_intra_inter_pairs stdout)
     = card (read_names (py_split newline stdout))"
proof -
  let ?st = "foldl pair_step ({}, 0, 0) (py_split newline stdout)"
  obtain seen n m where st: "?st = (seen, n, m)" by (cases ?st) auto
  have "counted ?st" by (intro foldl_counted) (simp add: counted_def)
  then have nm: "n + m = card seen" by (simp add: st counted_def)
  have "seen = read_names (py_split newline stdout)"
    using foldl_seen [of "({}, 0, 0)" "py_split newline stdout"] by (simp add: st)
  then show ?thesis using nm by (simp add: count_intra_inter_pairs_def st)
qed

text \<open>
  C4. When every record line of the output has its mate on the same reference (the
  sentinel \<open>=\<close> or the line's own reference name), n is the number of distinct read
  names and m is 0; and a further line whose read name has already occurred on an
  earlier record line changes neither count, wherever it stands.
\<close>

theorem pair_counts_intra:
  "((\<forall>l \<in> set (py_split newline stdout). record_line l \<longrightarrow> same_reference l) \<longrightarrow>
      count_intra_inter_pairs stdout = (card (read_names (py_split newline stdout)), 0))
   \<and> (newline \<notin> set l \<and> qname_of l \<in> read_names (py_split newline a) \<longrightarrow>
      count_intra_inter_pairs (a @ newline # l @ newline # b)
        = count_intra_inter_pairs (a @ newline # b))"
proof (intro conjI impI)
  assume h: "\<forall>l \<in> set (py_split newline stdout). record_line l \<longrightarrow> same_reference l"
  let ?st = "foldl pair_step ({}, 0, 0) (py_split newline stdout)"
  obtain seen n m where st: "?st = (seen, n, m)" by (cases ?st) auto
  have "counted ?st" by (intro foldl_counted) (simp add: counted_def)
  then have nm: "n + m = card seen" by (simp add: st counted_def)
  have s: "seen = read_names (py_split newline stdout)"
    using foldl_seen [of "({}, 0, 0)" "py_split newline stdout"] by (simp add: st)
  have "m = 0" using foldl_inter [OF h, of "({}, 0, 0)"] by (simp add: st)
  then show "count_intra_inter_pairs stdout = (card (read_names (py_split newline stdout)), 0)"
    using nm s by (simp add: count_intra_inter_pairs_def st)
next
  assume h: "newline \<notin> set l \<and> qname_of l \<in> read_names (py_split newline a)"
  have "py_split newline (a @ newline # l @ newline # b)
        = py_split newline a @ l # py_split newline b"
    using h by (simp add: py_split_append py_split_no_sep)
  moreover have "py_split newline (a @ newline # b) = py_split newline a @ py_split newline b"
    by (rule py_split_append)
  ultimately show "count_intra_inter_pairs (a @ newline # l @ newline # b)
        = count_intra_inter_pairs (a @ newline # b)"
    using h by (simp add: count_intra_inter_pairs_def foldl_seen_again del: foldl_append)
qed

lemma example_fields:
  "fields_of line_r1_first = [''r1'', ''99'', ''c1'', ''1'', ''60'', ''5M'', ''='', ''9'', ''13'']"
  "fields_of line_r1_mate = [''r1'', ''147'', ''c1'', ''9'', ''60'', ''5M'', ''='', ''1'', ''-13'']"
  "fields_of line_r2 = [''r2'', ''65'', ''c2'', ''4'', ''60'', ''5M'', ''c2'', ''7'', ''8'']"
  "fields_of [] = [[]]"
  by (simp_all add: fields_of_def line_r1_first_def line_r1_mate_def line_r2_def py_strip_def
        py_isspace_def tab_def)

lemma example_strip:
  "py_strip line_r1_first \<noteq> []" "py_strip line_r1_mate \<noteq> []" "py_strip line_r2 \<noteq> []"
  "py_strip [] = []"
  by (simp_all add: line_r1_first_def line_r1_mate_def line_r2_def py_strip_def
        py_isspace_def tab_def)

lemma example_no_newline:
  "newline \<notin> set line_r1_first" "newline \<notin> set line_r1_mate" "newline \<notin> set line_r2"
  by (simp_all add: line_r1_first_def line_r1_mate_def line_r2_def newline_def tab_def)

lemma example_lines:
  "py_split newline (line_r1_first @ newline # line_r1_mate @ newline # line_r2 @ [newline])
     = [line_r1_first, line_r1_mate, line_r2, []]"
  using example_no_newline
  by (simp add: py_split_append py_split_no_sep)

theorem pair_counts_intra_witness:
  "count_intra_inter_pairs (line_r1_first @ newline # line_r1_mate @ newline # line_r2 @ [newline])
     = (2, 0)
   \<and> count_intra_inter_pairs (line_r1_first @ newline # line_r1_mate @ newline # line_r2 @ [newline])
     = count_intra_inter_pairs (line_r1_first @ newline # line_r2 @ [newline])"
proof -
  let ?out = "line_r1_first @ newline # line_r1_mate @ newline # line_r2 @ [newline]"
  have rec: "record_line line_r1_first" "record_line line_r1_mate" "record_line line_r2"
    "\<not> record_line []"
    by (simp_all add: record_line_def example_fields example_strip)
  have same: "same_reference line_r1_first" "same_reference line_r1_mate" "same_reference line_r2"
    by (simp_all add: same_reference_def example_fields)
  have names: "qname_of line_r1_first = ''r1''" "qname_of line_r1_mate = ''r1''"
    "qname_of line_r2 = ''r2''"
    by (simp_all add: qname_of_def example_fields)
  have h: "\<forall>l \<in> set (py_split newline ?out). record_line l \<longrightarrow> same_reference l"
    by (simp add: example_lines rec same)
  have c: "card (read_names (py_split newline ?out)) = 2"
    by (simp add: example_lines read_names_def rec names)
  have d: "newline \<notin> set line_r1_mate
           \<and> qname_of line_r1_mate \<in> read_names (py_split newline line_r1_first)"
    using example_no_newline by (simp add: py_split_no_sep read_names_def rec names)
  note t = pair_counts_intra [of ?out line_r1_mate line_r1_first "line_r2 @ [newline]"]
  have a: "count_intra_inter_pairs ?out = (2, 0)"
    using t h c by metis
  have b: "count_intra_inter_pairs ?out
           = count_intra_inter_pairs (line_r1_first @ newline # line_r2 @ [newline])"
    using t d by blast
  show ?thesis using a b by (rule conjI)
qed

subsection \<open>Insert-size sampling\<close>

text \<open>
  Two parts of the sampler that hold: a record whose reference name is among the
  selected names is kept, and a record with a non-zero template length is selected
  exactly when the magnitude lies strictly between 0 and 5000, and is printed as that
  magnitude.
\<close>

lemma sublist_third_field:
  "sublist c (py_join tab (a # b # c # d # rest))"
proof -
  have "py_join tab (a # b # c # d # rest)
        = (a @ tab # b @ [tab]) @ c @ (tab # py_join tab (d # rest))"
    by simp
  then show ?thesis by (simp only: sublist_appendI)
qed

lemma grep_keeps_reference:
  assumes "RNAME r \<in> set patterns"
  shows "grep_F patterns (sam_text r)"
proof -
  have "sublist (RNAME r) (sam_text r)"
    unfolding sam_text_def by (rule sublist_third_field)
  then show ?thesis using assms by (auto simp: grep_F_def list_ex_iff)
qed

lemma awk_rule:
  "TLEN r \<noteq> 0 \<Longrightarrow>
     (awk_select r \<longleftrightarrow> 0 < \<bar>TLEN r\<bar> \<and> \<bar>TLEN r\<bar> < 5000) \<and> awk_print r = \<bar>TLEN r\<bar>"
  by (auto simp: awk_select_def awk_print_def)

lemma dec_nat_example: "dec_nat 1234 = ''1234''" "dec_nat 5 = ''5''"
  by (simp_all add: dec_nat.simps)

lemma read_on_c10_text: "sam_text read_on_c10 = py_join tab [''r7'', ''99'', ''c10'', ''5'', ''60'', ''5M'', ''='', ''40'', ''1234'', ''ACGTA'', ''FFFFF'']"
  by (simp add: sam_text_def read_on_c10_def dec_int_def dec_nat.simps)

lemma read_on_c10_kept: "grep_F [''c1''] (sam_text read_on_c10)"
  by (simp add: read_on_c10_text grep_F_def sublist_code tab_def)

text \<open>
  C9 at a record on c10 with the name list c1, c2 and top\_k = 1. The reference name
  c10 is not among the selected names, yet the line contains c1 as a substring, so
  \<open>grep -F\<close> keeps it and the sampler emits its template length 1234.
\<close>

theorem sampler_substring_match:
  "RNAME read_on_c10 \<notin> set (take 1 [''c1'', ''c2''])
   \<and> sample_insert_sizes [read_on_c10] 1 [''c1'', ''c2''] = [1234]"
  by (simp add: sample_insert_sizes_def read_on_c10_kept awk_select_def awk_print_def Let_def) (simp add: read_on_c10_def)


end
